theory Spec2Isabelle
  imports Complex_Main "HOL-Library.Word"
begin

section \<open>Python values and exceptions\<close>

text \<open>
  The value that \<^verbatim>\<open>response.json()\<close> hands to the decoder is an arbitrary Python object
  built from JSON text.  A float is kept by its exact value (every double is a rational),
  with the two non-finite cases that the JSON reader also accepts.  An object carries its
  members in document order; the dictionary they build is computed by \<open>py_dict\<close> below.
  Strings are lists of characters read as code points below 256.
\<close>

datatype pyfloat = Finite rat | Infinity | NaN

datatype json =
    JNull
  | JBool bool
  | JInt int
  | JFloat pyfloat
  | JStr string
  | JArr "json list"
  | JObj "(string \<times> json) list"

text \<open>
  The exception classes that can travel through the module: the two classes that
  \<^verbatim>\<open>api.py\<close> defines (\<open>CannotConnect\<close> with its message, \<open>InvalidAuth\<close>), the two
  transport classes that it catches, and the built-in classes raised by subscripting,
  \<^verbatim>\<open>int()\<close>, \<^verbatim>\<open>bytes.fromhex()\<close> and attribute access.
\<close>

datatype exn =
    InvalidAuth
  | CannotConnect string
  | TimeoutError
  | ClientError
  | KeyError string
  | ValueError
  | TypeError
  | AttributeError
  | OverflowError

type_synonym byte = "8 word"

subsection \<open>Dictionaries\<close>

text \<open>
  \<^verbatim>\<open>d[k] = v\<close>: an existing key keeps its position and takes the new value, a new key
  goes to the end.  A dictionary built from a member list therefore has each key once,
  at the position of its first occurrence, with the value of its last.
\<close>

fun dict_setitem :: "('k \<times> 'v) list \<Rightarrow> 'k \<Rightarrow> 'v \<Rightarrow> ('k \<times> 'v) list" where
  "dict_setitem [] k v = [(k, v)]"
| "dict_setitem ((k', v') # d) k v =
     (if k' = k then (k, v) # d else (k', v') # dict_setitem d k v)"

definition py_dict :: "('k \<times> 'v) list \<Rightarrow> ('k \<times> 'v) list" where
  "py_dict ps = foldl (\<lambda>d (k, v). dict_setitem d k v) [] ps"

text \<open>\<^verbatim>\<open>obj[key]\<close> with a string key: only a dictionary can be subscripted that way.\<close>

fun py_getitem :: "json \<Rightarrow> string \<Rightarrow> exn + json" where
  "py_getitem (JObj d) k =
     (case map_of (py_dict d) k of None \<Rightarrow> Inl (KeyError k) | Some v \<Rightarrow> Inr v)"
| "py_getitem _ k = Inl TypeError"

text \<open>\<^verbatim>\<open>obj.get(key, default)\<close> and \<^verbatim>\<open>obj.items()\<close>: methods of dictionaries only.\<close>

fun py_get :: "json \<Rightarrow> string \<Rightarrow> json \<Rightarrow> exn + json" where
  "py_get (JObj d) k dflt =
     (case map_of (py_dict d) k of None \<Rightarrow> Inr dflt | Some v \<Rightarrow> Inr v)"
| "py_get _ k dflt = Inl AttributeError"

fun py_items :: "json \<Rightarrow> exn + (string \<times> json) list" where
  "py_items (JObj d) = Inr (py_dict d)"
| "py_items _ = Inl AttributeError"

subsection \<open>The built-in conversions\<close>

text \<open>ASCII white space, as \<^verbatim>\<open>bytes.fromhex()\<close> skips it.\<close>

definition is_space :: "char \<Rightarrow> bool" where
  "is_space c = (let n = (of_char c :: nat) in (9 \<le> n \<and> n \<le> 13) \<or> n = 32)"

text \<open>
  White space as \<^verbatim>\<open>int()\<close> skips it around a literal: the ASCII white space, and the two
  space characters between 128 and 255, which it reads as blanks.
\<close>

definition is_int_space :: "char \<Rightarrow> bool" where
  "is_int_space c = (is_space c \<or> of_char c = (133 :: nat) \<or> of_char c = (160 :: nat))"

text \<open>White space as \<^verbatim>\<open>str.strip()\<close> removes it, for code points below 256.\<close>

definition is_uspace :: "char \<Rightarrow> bool" where
  "is_uspace c =
     (let n = (of_char c :: nat)
      in (9 \<le> n \<and> n \<le> 13) \<or> (28 \<le> n \<and> n \<le> 32) \<or> n = 133 \<or> n = 160)"

definition strip :: "string \<Rightarrow> string" where
  "strip s = rev (dropWhile is_uspace (rev (dropWhile is_uspace s)))"

definition digit_val :: "char \<Rightarrow> nat option" where
  "digit_val c =
     (let n = (of_char c :: nat) in if 48 \<le> n \<and> n \<le> 57 then Some (n - 48) else None)"

definition hex_val :: "char \<Rightarrow> nat option" where
  "hex_val c =
     (let n = (of_char c :: nat)
      in if 48 \<le> n \<and> n \<le> 57 then Some (n - 48)
         else if 97 \<le> n \<and> n \<le> 102 then Some (n - 87)
         else if 65 \<le> n \<and> n \<le> 70 then Some (n - 55)
         else None)"

text \<open>
  The digits of a decimal literal: at least one digit, with single underscores allowed
  between digits only.
\<close>

fun digits_of :: "string \<Rightarrow> nat list option" where
  "digits_of [] = None"
| "digits_of [c] = map_option (\<lambda>d. [d]) (digit_val c)"
| "digits_of (c # u # cs) =
     (case digit_val c of
        None \<Rightarrow> None
      | Some d \<Rightarrow>
          if u = CHR ''_'' then map_option ((#) d) (digits_of cs)
          else map_option ((#) d) (digits_of (u # cs)))"

definition int_max_str_digits :: nat where
  "int_max_str_digits = 4300"

text \<open>
  \<^verbatim>\<open>int(s)\<close> for a string: surrounding white space is dropped, then an optional sign and
  a decimal literal; more digits than the interpreter's default limit are refused.
  \<open>None\<close> stands for the \<^verbatim>\<open>ValueError\<close>.
\<close>

definition int_of_digits :: "nat list \<Rightarrow> int option" where
  "int_of_digits ds =
     (if length ds > int_max_str_digits then None
      else Some (int (foldl (\<lambda>a d. 10 * a + d) 0 ds)))"

definition int_of_str :: "string \<Rightarrow> int option" where
  "int_of_str s =
     (case rev (dropWhile is_int_space (rev (dropWhile is_int_space s))) of
        [] \<Rightarrow> None
      | c # cs \<Rightarrow>
          if c = CHR ''-'' then
            (case digits_of cs of None \<Rightarrow> None
             | Some ds \<Rightarrow> map_option uminus (int_of_digits ds))
          else if c = CHR ''+'' then
            (case digits_of cs of None \<Rightarrow> None | Some ds \<Rightarrow> int_of_digits ds)
          else
            (case digits_of (c # cs) of None \<Rightarrow> None | Some ds \<Rightarrow> int_of_digits ds))"

text \<open>\<^verbatim>\<open>int(x)\<close>: a float is truncated towards zero, a Boolean is 0 or 1.\<close>

definition truncate :: "rat \<Rightarrow> int" where
  "truncate q = (if 0 \<le> q then \<lfloor>q\<rfloor> else \<lceil>q\<rceil>)"

fun py_int :: "json \<Rightarrow> exn + int" where
  "py_int JNull = Inl TypeError"
| "py_int (JBool b) = Inr (if b then 1 else 0)"
| "py_int (JInt i) = Inr i"
| "py_int (JFloat (Finite q)) = Inr (truncate q)"
| "py_int (JFloat Infinity) = Inl OverflowError"
| "py_int (JFloat NaN) = Inl ValueError"
| "py_int (JStr s) = (case int_of_str s of None \<Rightarrow> Inl ValueError | Some i \<Rightarrow> Inr i)"
| "py_int (JArr _) = Inl TypeError"
| "py_int (JObj _) = Inl TypeError"

text \<open>
  \<^verbatim>\<open>bytes.fromhex(s)\<close> on a string: white space is skipped in front of a byte, then two
  hexadecimal digits are required.  \<open>None\<close> stands for the \<^verbatim>\<open>ValueError\<close>.
\<close>

fun hex_bytes :: "string \<Rightarrow> byte list option" where
  "hex_bytes [] = Some []"
| "hex_bytes [c] = (if is_space c then Some [] else None)"
| "hex_bytes (c # d # cs) =
     (if is_space c then hex_bytes (d # cs)
      else (case (hex_val c, hex_val d) of
              (Some hi, Some lo) \<Rightarrow> map_option ((#) (of_nat (16 * hi + lo))) (hex_bytes cs)
            | _ \<Rightarrow> None))"

fun fromhex :: "json \<Rightarrow> exn + byte list" where
  "fromhex (JStr s) = (case hex_bytes s of None \<Rightarrow> Inl ValueError | Some bs \<Rightarrow> Inr bs)"
| "fromhex _ = Inl TypeError"

text \<open>The decimal rendering of a status code in an f-string.\<close>

function show_nat :: "nat \<Rightarrow> string" where
  "show_nat n =
     (if n < 10 then [char_of (48 + n)]
      else show_nat (n div 10) @ [char_of (48 + n mod 10)])"
  by pat_completeness auto
termination
  by (relation "measure id") auto

section \<open>The decoder (api.py)\<close>

record TagData =
  mac :: string
  rssi :: int
  timestamp :: int
  data :: "byte list"
  age_seconds :: "int option"

text \<open>
  \<open>HistoryResponse\<close>: the source's field \<^verbatim>\<open>timestamp\<close> is \<open>response_timestamp\<close> here, the
  name of the local variable it is assigned from.  \<^verbatim>\<open>gw_mac\<close> and \<^verbatim>\<open>coordinates\<close> are
  stored as they come out of the body, without conversion.
\<close>

record HistoryResponse =
  response_timestamp :: int
  gw_mac :: json
  tags :: "TagData list"
  coordinates :: json

text \<open>\<^verbatim>\<open>TagData.from_gateway_history_json_tag\<close>, lines 43 to 61.\<close>

definition from_gateway_history_json_tag ::
  "string \<Rightarrow> json \<Rightarrow> int option \<Rightarrow> exn + TagData" where
  "from_gateway_history_json_tag m payload rts =
     (case py_getitem payload ''timestamp'' of Inl e \<Rightarrow> Inl e | Inr tv \<Rightarrow>
      case py_int tv of Inl e \<Rightarrow> Inl e | Inr tag_timestamp \<Rightarrow>
      let age = (case rts of
                   None \<Rightarrow> None
                 | Some rt \<Rightarrow> if rt \<noteq> 0 then Some (rt - tag_timestamp) else None)
      in
      case py_getitem payload ''rssi'' of Inl e \<Rightarrow> Inl e | Inr rv \<Rightarrow>
      case py_int rv of Inl e \<Rightarrow> Inl e | Inr r \<Rightarrow>
      case py_getitem payload ''data'' of Inl e \<Rightarrow> Inl e | Inr dv \<Rightarrow>
      case fromhex dv of Inl e \<Rightarrow> Inl e | Inr bs \<Rightarrow>
      Inr \<lparr>mac = m, rssi = r, timestamp = tag_timestamp, data = bs, age_seconds = age\<rparr>)"

text \<open>The list comprehension of lines 88 to 95: the first failing entry aborts it.\<close>

fun tags_of_items :: "(string \<times> json) list \<Rightarrow> int option \<Rightarrow> exn + TagData list" where
  "tags_of_items [] rts = Inr []"
| "tags_of_items ((m, tag_payload) # rest) rts =
     (case from_gateway_history_json_tag m tag_payload rts of
        Inl e \<Rightarrow> Inl e
      | Inr t \<Rightarrow>
          (case tags_of_items rest rts of Inl e \<Rightarrow> Inl e | Inr ts \<Rightarrow> Inr (t # ts)))"

text \<open>\<^verbatim>\<open>HistoryResponse.from_gateway_history_json\<close>, lines 83 to 101.\<close>

definition from_gateway_history_json :: "json \<Rightarrow> exn + HistoryResponse" where
  "from_gateway_history_json body =
     (case py_getitem body ''data'' of Inl e \<Rightarrow> Inl e | Inr payload \<Rightarrow>
      case py_getitem payload ''timestamp'' of Inl e \<Rightarrow> Inl e | Inr tv \<Rightarrow>
      case py_int tv of Inl e \<Rightarrow> Inl e | Inr rt \<Rightarrow>
      case py_get payload ''tags'' (JObj []) of Inl e \<Rightarrow> Inl e | Inr tagsv \<Rightarrow>
      case py_items tagsv of Inl e \<Rightarrow> Inl e | Inr its \<Rightarrow>
      case tags_of_items its (Some rt) of Inl e \<Rightarrow> Inl e | Inr ts \<Rightarrow>
      case py_getitem payload ''gw_mac'' of Inl e \<Rightarrow> Inl e | Inr gw \<Rightarrow>
      case py_get payload ''coordinates'' (JStr []) of Inl e \<Rightarrow> Inl e | Inr co \<Rightarrow>
      Inr \<lparr>response_timestamp = rt, gw_mac = gw, tags = ts, coordinates = co\<rparr>)"

section \<open>The fetch (api.py)\<close>

text \<open>
  The arguments of \<^verbatim>\<open>session.get\<close>.  The session is the environment: it answers a
  request by raising, or with a status and with what \<^verbatim>\<open>response.json(content_type=None)\<close>
  then does (raise, or return the parsed body).
\<close>

record request =
  url :: string
  headers :: "(string \<times> string) list option"
  timeout :: "rat option"

datatype json_outcome = JsonRaises exn | JsonReturns json

datatype get_outcome = GetRaises exn | GetResponds nat json_outcome

type_synonym session = "request \<Rightarrow> get_outcome"

text \<open>Lines 112 to 120: \<^verbatim>\<open>if bearer_token:\<close> is false for \<^verbatim>\<open>None\<close> and for the empty string.\<close>

definition history_request :: "string \<Rightarrow> string option \<Rightarrow> rat option \<Rightarrow> request" where
  "history_request h bearer_token tmo =
     \<lparr>url = ''http://'' @ h @ ''/history'',
      headers = (case bearer_token of
                   None \<Rightarrow> None
                 | Some t \<Rightarrow>
                     if t \<noteq> [] then Some [(''Authorization'', ''Bearer '' @ t)] else None),
      timeout = tmo\<rparr>"

text \<open>The body of the \<^verbatim>\<open>try\<close>, lines 117 to 128.\<close>

definition try_body :: "session \<Rightarrow> request \<Rightarrow> exn + json" where
  "try_body s req =
     (case s req of
        GetRaises e \<Rightarrow> Inl e
      | GetResponds status body \<Rightarrow>
          if status = 401 then Inl InvalidAuth
          else if status \<noteq> 200 then
            Inl (CannotConnect (''Unexpected response from gateway: HTTP '' @ show_nat status))
          else (case body of JsonRaises e \<Rightarrow> Inl e | JsonReturns v \<Rightarrow> Inr v))"

text \<open>
  The \<^verbatim>\<open>except\<close> clauses, lines 129 to 136; an exception that no clause names
  propagates as it is.
\<close>

fun except_clauses :: "exn \<Rightarrow> exn" where
  "except_clauses InvalidAuth = InvalidAuth"
| "except_clauses TimeoutError = CannotConnect ''Timeout communicating with gateway''"
| "except_clauses ClientError = CannotConnect ''Error communicating with gateway''"
| "except_clauses (KeyError k) = CannotConnect ''Invalid response from gateway''"
| "except_clauses ValueError = CannotConnect ''Invalid response from gateway''"
| "except_clauses TypeError = CannotConnect ''Invalid response from gateway''"
| "except_clauses e = e"

text \<open>\<^verbatim>\<open>async_get_gateway_history_data\<close>: the decoder runs after the \<^verbatim>\<open>try\<close> statement.\<close>

definition async_get_gateway_history_data ::
  "session \<Rightarrow> string \<Rightarrow> string option \<Rightarrow> rat option \<Rightarrow> exn + HistoryResponse" where
  "async_get_gateway_history_data s h bearer_token tmo =
     (case try_body s (history_request h bearer_token tmo) of
        Inl e \<Rightarrow> Inl (except_clauses e)
      | Inr body \<Rightarrow> from_gateway_history_json body)"

section \<open>The configuration flow's token (config_flow.py)\<close>

text \<open>
  Lines 39 to 50 of \<^verbatim>\<open>_async_validate\<close>: the token of the form, trimmed, and absent when
  nothing is left or when it is not a string; then the fetch with it.
\<close>

definition validate_token :: "json option \<Rightarrow> string option" where
  "validate_token token_input =
     (case token_input of
        Some (JStr s) \<Rightarrow> (let t = strip s in if t = [] then None else Some t)
      | _ \<Rightarrow> None)"

definition async_validate_fetch ::
  "session \<Rightarrow> string \<Rightarrow> json option \<Rightarrow> exn + HistoryResponse" where
  "async_validate_fetch s h token_input =
     async_get_gateway_history_data s h (validate_token token_input) None"

section \<open>The coordinator (coordinator.py)\<close>

record coordinator =
  host :: string
  token :: "string option"
  last_tag_datas :: "string \<rightharpoonup> TagData"

text \<open>\<^verbatim>\<open>__init__\<close>: \<^verbatim>\<open>data.get(CONF_TOKEN) or None\<close>, and an empty cache.\<close>

definition coordinator_init :: "string \<Rightarrow> string option \<Rightarrow> coordinator" where
  "coordinator_init h tok =
     \<lparr>host = h,
      token = (case tok of None \<Rightarrow> None | Some t \<Rightarrow> if t \<noteq> [] then Some t else None),
      last_tag_datas = Map.empty\<rparr>"

text \<open>
  The loop of lines 47 to 53, with the list of changed records and the cache as the
  state it threads.
\<close>

fun update_loop ::
  "TagData list \<Rightarrow> TagData list \<Rightarrow> (string \<rightharpoonup> TagData)
     \<Rightarrow> TagData list \<times> (string \<rightharpoonup> TagData)" where
  "update_loop [] changed cache = (changed, cache)"
| "update_loop (tag # rest) changed cache =
     (if (case cache (mac tag) of None \<Rightarrow> True | Some old \<Rightarrow> data old \<noteq> data tag)
      then update_loop rest (changed @ [tag]) (cache(mac tag \<mapsto> tag))
      else update_loop rest changed cache)"

text \<open>
  \<^verbatim>\<open>_async_update_data\<close>: an exception of the fetch leaves before the loop; otherwise the
  changed records are returned and the cache is the loop's.
\<close>

definition async_update_data ::
  "session \<Rightarrow> coordinator \<Rightarrow> (exn + TagData list) \<times> coordinator" where
  "async_update_data s c =
     (case async_get_gateway_history_data s (host c) (token c) None of
        Inl e \<Rightarrow> (Inl e, c)
      | Inr resp \<Rightarrow>
          (case update_loop (tags resp) [] (last_tag_datas c) of
             (changed, cache) \<Rightarrow> (Inr changed, c\<lparr>last_tag_datas := cache\<rparr>)))"

section \<open>Inputs named by the properties\<close>




subsection \<open>Sample inputs\<close>

text \<open>A body with one tag, gateway time 100 and tag time 95.\<close>

definition tag_entry :: "json \<Rightarrow> json \<Rightarrow> json \<Rightarrow> json" where
  "tag_entry r t d = JObj [(''rssi'', r), (''timestamp'', t), (''data'', d)]"

definition body_with :: "json \<Rightarrow> json" where
  "body_with entry =
     JObj [(''data'',
            JObj [(''timestamp'', JInt 100),
                  (''gw_mac'', JStr ''AA:BB:CC:DD:EE:FF''),
                  (''tags'', JObj [(''11:22:33:44:55:66'', entry)])])]"

definition example_body :: json where
  "example_body = body_with (tag_entry (JInt (- 70)) (JInt 95) (JStr ''0201060303aafe''))"

definition example_tag :: TagData where
  "example_tag =
     \<lparr>mac = ''11:22:33:44:55:66'', rssi = - 70, timestamp = 95,
      data = [2, 1, 6, 3, 3, 170, 254], age_seconds = Some 5\<rparr>"

definition answers :: "json \<Rightarrow> session" where
  "answers body = (\<lambda>req. GetResponds 200 (JsonReturns body))"

text \<open>The same tag heard later and weaker, and a tag of another beacon.\<close>

definition later_tag :: TagData where
  "later_tag = example_tag\<lparr>rssi := - 81, timestamp := 99, age_seconds := Some 1\<rparr>"

definition other_tag :: TagData where
  "other_tag =
     \<lparr>mac = ''77:88:99:AA:BB:CC'', rssi = - 55, timestamp = 98,
      data = [2, 1, 4], age_seconds = Some 2\<rparr>"

definition example_response :: HistoryResponse where
  "example_response =
     \<lparr>response_timestamp = 100, gw_mac = JStr ''AA:BB:CC:DD:EE:FF'',
      tags = [example_tag], coordinates = JStr []\<rparr>"


text \<open>A coordinator that has not polled yet, and one that has seen the two tags.\<close>

definition fresh_coordinator :: coordinator where
  "fresh_coordinator = coordinator_init ''192.168.1.5'' None"

definition seen_coordinator :: coordinator where
  "seen_coordinator =
     fresh_coordinator
       \<lparr>last_tag_datas := [mac later_tag \<mapsto> later_tag, mac other_tag \<mapsto> other_tag]\<rparr>"

section \<open>Dictionaries hold each key once\<close>

lemma dict_setitem_keys: "fst ` set (dict_setitem d k v) = insert k (fst ` set d)"
proof (induction d k v rule: dict_setitem.induct)
  case (1 k v)
  show ?case by simp
next
  case (2 k' v' d k v)
  show ?case
  proof (cases "k' = k")
    case True
    then show ?thesis by simp
  next
    case False
    with "2.IH" show ?thesis by (simp add: insert_commute)
  qed
qed

lemma distinct_dict_setitem:
  "distinct (map fst d) \<Longrightarrow> distinct (map fst (dict_setitem d k v))"
proof (induction d)
  case Nil
  then show ?case by simp
next
  case (Cons p d)
  obtain k' v' where p: "p = (k', v')" by (cases p)
  show ?case
  proof (cases "k' = k")
    case True
    with Cons.prems p show ?thesis by simp
  next
    case False
    have "k' \<notin> fst ` set (dict_setitem d k v)"
      using Cons.prems p False by (simp add: dict_setitem_keys)
    with Cons p False show ?thesis by simp
  qed
qed

lemma distinct_foldl_setitem:
  "distinct (map fst d) \<Longrightarrow>
   distinct (map fst (foldl (\<lambda>d (k, v). dict_setitem d k v) d ps))"
  by (induction ps arbitrary: d) (auto simp: distinct_dict_setitem)

lemma distinct_py_dict: "distinct (map fst (py_dict ps))"
  unfolding py_dict_def by (rule distinct_foldl_setitem) simp

section \<open>What the conversions and the decoder return\<close>






lemma fromhex_Inr: "fromhex v = Inr bs \<Longrightarrow> \<exists>x. v = JStr x \<and> hex_bytes x = Some bs"
  by (cases v) (auto split: option.splits)

lemma hex_bytes_empty: "(hex_bytes x = Some []) = (\<forall>c \<in> set x. is_space c)"
  by (induction x rule: hex_bytes.induct) (auto split: option.splits)

lemma strip_empty: "(strip x = []) = (\<forall>c \<in> set x. is_uspace c)"
proof -
  have "(strip x = []) = (\<forall>c \<in> set (dropWhile is_uspace x). is_uspace c)"
    by (simp add: strip_def)
  also have "\<dots> = (\<forall>c \<in> set x. is_uspace c)"
  proof
    assume a: "\<forall>c \<in> set (dropWhile is_uspace x). is_uspace c"
    have "set x = set (takeWhile is_uspace x) \<union> set (dropWhile is_uspace x)"
      by (metis set_append takeWhile_dropWhile_id)
    with a show "\<forall>c \<in> set x. is_uspace c" by (auto dest: set_takeWhileD)
  next
    assume "\<forall>c \<in> set x. is_uspace c"
    then show "\<forall>c \<in> set (dropWhile is_uspace x). is_uspace c"
      by (auto dest: set_dropWhileD)
  qed
  finally show ?thesis .
qed

text \<open>A record is built only when all six steps of the class method succeed.\<close>

lemma tag_fields:
  assumes "from_gateway_history_json_tag m p rts = Inr t"
  shows "\<exists>tv rv dv. py_getitem p ''timestamp'' = Inr tv \<and> py_int tv = Inr (timestamp t)
            \<and> py_getitem p ''rssi'' = Inr rv \<and> py_int rv = Inr (rssi t)
            \<and> py_getitem p ''data'' = Inr dv \<and> fromhex dv = Inr (data t)"
  using assms
  by (auto simp: from_gateway_history_json_tag_def Let_def split: sum.splits)

lemma tag_mac: "from_gateway_history_json_tag m p rts = Inr t \<Longrightarrow> mac t = m"
  by (auto simp: from_gateway_history_json_tag_def Let_def split: sum.splits)

lemma tag_age:
  "from_gateway_history_json_tag m p rts = Inr t \<Longrightarrow>
   age_seconds t =
     (case rts of None \<Rightarrow> None | Some rt \<Rightarrow> if rt \<noteq> 0 then Some (rt - timestamp t) else None)"
  by (auto simp: from_gateway_history_json_tag_def Let_def split: sum.splits option.splits)



text \<open>The comprehension: induction on the items, the first failure decides.\<close>

lemma tags_of_items_macs: "tags_of_items its rts = Inr ts \<Longrightarrow> map mac ts = map fst its"
proof (induction its arbitrary: ts)
  case Nil
  then show ?case by simp
next
  case (Cons p its)
  obtain m e where p: "p = (m, e)" by (cases p)
  from Cons.prems p obtain t ts' where
    t: "from_gateway_history_json_tag m e rts = Inr t"
    and ts': "tags_of_items its rts = Inr ts'" and ts: "ts = t # ts'"
    by (auto split: sum.splits)
  from Cons.IH [OF ts'] tag_mac [OF t] p ts show ?case by simp
qed



lemma tags_of_items_age:
  "tags_of_items its rts = Inr ts \<Longrightarrow> t \<in> set ts \<Longrightarrow>
   age_seconds t =
     (case rts of None \<Rightarrow> None | Some rt \<Rightarrow> if rt \<noteq> 0 then Some (rt - timestamp t) else None)"
proof (induction its arbitrary: ts)
  case Nil
  then show ?case by simp
next
  case (Cons a its)
  obtain m p where a: "a = (m, p)" by (cases a)
  from Cons.prems(1) a obtain u us where
    u: "from_gateway_history_json_tag m p rts = Inr u"
    and us: "tags_of_items its rts = Inr us" and ts: "ts = u # us"
    by (auto split: sum.splits)
  from Cons.prems(2) ts consider "t = u" | "t \<in> set us" by auto
  then show ?case
  proof cases
    case 1
    show ?thesis unfolding 1 by (rule tag_age [OF u])
  next
    case 2
    with Cons.IH [OF us] show ?thesis by simp
  qed
qed

text \<open>
  The tags of a decoded response are the items of a dictionary, so no two of them carry
  the same identifier; and every response that the fetch returns is a decoded one.
\<close>

lemma decoded_tags_distinct:
  assumes "from_gateway_history_json body = Inr r"
  shows "distinct (map mac (tags r))"
proof -
  from assms obtain tagsv its rt where
    its: "py_items tagsv = Inr its" and ts: "tags_of_items its rt = Inr (tags r)"
    by (auto simp: from_gateway_history_json_def split: sum.splits)
  from its obtain d where "its = py_dict d" by (cases tagsv) auto
  with tags_of_items_macs [OF ts] show ?thesis by (simp add: distinct_py_dict)
qed

lemma fetched_is_decoded:
  "async_get_gateway_history_data s h tok tmo = Inr r \<Longrightarrow>
   \<exists>body. from_gateway_history_json body = Inr r"
  by (auto simp: async_get_gateway_history_data_def split: sum.splits)


lemma decoded_example_response: "from_gateway_history_json example_body = Inr example_response"
  by code_simp

section \<open>The loop over the tags\<close>

lemma update_loop_acc:
  "update_loop ts changed cache =
     (changed @ fst (update_loop ts [] cache), snd (update_loop ts [] cache))"
proof (induction ts arbitrary: changed cache)
  case Nil
  then show ?case by simp
next
  case (Cons t ts)
  let ?c = "cache(mac t \<mapsto> t)"
  show ?case
  proof (cases "case cache (mac t) of None \<Rightarrow> True | Some old \<Rightarrow> data old \<noteq> data t")
    case True
    have a: "update_loop ts (changed @ [t]) ?c =
        ((changed @ [t]) @ fst (update_loop ts [] ?c), snd (update_loop ts [] ?c))"
      by (rule Cons.IH)
    have b: "update_loop ts [t] ?c = ([t] @ fst (update_loop ts [] ?c), snd (update_loop ts [] ?c))"
      by (rule Cons.IH)
    have l: "update_loop (t # ts) changed cache = update_loop ts (changed @ [t]) ?c"
      using True by simp
    have r: "update_loop (t # ts) [] cache = update_loop ts [t] ?c"
      using True by simp
    show ?thesis unfolding l r a b by simp
  next
    case False
    have l: "update_loop (t # ts) changed cache = update_loop ts changed cache"
      using False by simp
    have r: "update_loop (t # ts) [] cache = update_loop ts [] cache"
      using False by simp
    show ?thesis unfolding l r by (rule Cons.IH)
  qed
qed

lemma update_loop_other:
  "k \<notin> mac ` set ts \<Longrightarrow> snd (update_loop ts changed cache) k = cache k"
  by (induction ts arbitrary: changed cache) auto

lemma update_loop_dom: "k \<in> dom cache \<Longrightarrow> k \<in> dom (snd (update_loop ts changed cache))"
proof (induction ts arbitrary: changed cache)
  case Nil
  then show ?case by simp
next
  case (Cons t ts)
  from Cons.prems have "k \<in> dom (cache(mac t \<mapsto> t))" by simp
  then have a: "\<And>ch. k \<in> dom (snd (update_loop ts ch (cache(mac t \<mapsto> t))))"
    by (rule Cons.IH)
  have b: "\<And>ch. k \<in> dom (snd (update_loop ts ch cache))"
    by (rule Cons.IH [OF Cons.prems])
  show ?case by (simp add: a b)
qed

text \<open>
  With one record for each identifier, every test of the loop sees the cache entry that
  was there before the loop: the loop writes only under the identifier it is looking at.
\<close>

lemma update_loop_changed:
  "distinct (map mac ts) \<Longrightarrow>
   fst (update_loop ts [] cache) =
     filter (\<lambda>t. case cache (mac t) of None \<Rightarrow> True | Some old \<Rightarrow> data old \<noteq> data t) ts"
proof (induction ts arbitrary: cache)
  case Nil
  then show ?case by simp
next
  case (Cons t ts)
  let ?P = "\<lambda>c t. case c (mac t) of None \<Rightarrow> True | Some old \<Rightarrow> data old \<noteq> data t"
  from Cons.prems have d: "distinct (map mac ts)" and n: "\<forall>x \<in> set ts. mac x \<noteq> mac t"
    by (auto simp: image_iff)
  have same: "filter (?P (cache(mac t \<mapsto> t))) ts = filter (?P cache) ts"
    using n by (intro filter_cong) auto
  show ?case
  proof (cases "?P cache t")
    case True
    have ih: "fst (update_loop ts [] (cache(mac t \<mapsto> t))) = filter (?P (cache(mac t \<mapsto> t))) ts"
      by (rule Cons.IH [OF d])
    have "update_loop (t # ts) [] cache = update_loop ts [t] (cache(mac t \<mapsto> t))"
      using True by simp
    then have step: "fst (update_loop (t # ts) [] cache) = t # fst (update_loop ts [] (cache(mac t \<mapsto> t)))"
      by (simp add: update_loop_acc [of ts "[t]"])
    show ?thesis unfolding step ih same using True by simp
  next
    case False
    with Cons.IH [OF d, of cache] show ?thesis by simp
  qed
qed

lemma update_loop_entry:
  "distinct (map mac ts) \<Longrightarrow> t \<in> set ts \<Longrightarrow>
   snd (update_loop ts changed cache) (mac t) =
     (case cache (mac t) of
        None \<Rightarrow> Some t
      | Some old \<Rightarrow> if data old \<noteq> data t then Some t else Some old)"
proof (induction ts arbitrary: changed cache)
  case Nil
  then show ?case by simp
next
  case (Cons u ts)
  from Cons.prems have d: "distinct (map mac ts)" and n: "mac u \<notin> mac ` set ts"
    and n': "\<forall>x \<in> set ts. mac x \<noteq> mac u" by (auto simp: image_iff)
  show ?case
  proof (cases "t = u")
    case True
    with n show ?thesis by (simp add: update_loop_other split: option.splits)
  next
    case False
    with Cons.prems have t: "t \<in> set ts" by simp
    with n' have ne: "mac t \<noteq> mac u" by auto
    show ?thesis using Cons.IH [OF d t] ne by (simp split: option.splits)
  qed
qed

lemma update_loop_absorbed:
  assumes "distinct (map mac ts)" and "t \<in> set ts"
  shows "\<exists>e. snd (update_loop ts changed cache) (mac t) = Some e \<and> data e = data t"
  using update_loop_entry [OF assms, of changed cache]
  by (auto split: option.splits if_splits)

lemma update_loop_fixed:
  "\<forall>t \<in> set ts. \<exists>old. cache (mac t) = Some old \<and> data old = data t \<Longrightarrow>
   update_loop ts changed cache = (changed, cache)"
  by (induction ts arbitrary: changed cache) auto

lemma update_loop_twice:
  assumes "distinct (map mac ts)"
  shows "update_loop ts [] (snd (update_loop ts [] cache)) = ([], snd (update_loop ts [] cache))"
proof (rule update_loop_fixed)
  show "\<forall>t \<in> set ts. \<exists>old. snd (update_loop ts [] cache) (mac t) = Some old \<and> data old = data t"
    using update_loop_absorbed [OF assms] by blast
qed

section \<open>Decoding failures\<close>




section \<open>The Authorization header\<close>

text \<open>
  Claim C2 as stated: a fetch whose token is empty after trimming sends no Authorization
  header.  The fetch tests the token as it is given; for the token of two spaces it
  sends the header.
\<close>

theorem blank_token_sends_header:
  "headers (history_request ''192.168.1.5'' (Some ''  '') None) =
     Some [(''Authorization'', ''Bearer   '')]"
  by (simp add: history_request_def)

text \<open>
  Claim C2, amended: the fetch sends no Authorization header exactly when its token is
  \<^verbatim>\<open>None\<close> or the empty string, and sends \<^verbatim>\<open>Authorization: Bearer <token>\<close> for every
  other token, untrimmed.  The trimming is the configuration flow's: a token input that
  is empty after trimming, which is one made of white space only, reaches the fetch as
  \<^verbatim>\<open>None\<close>, so no header is sent; any other string reaches it trimmed.  The coordinator
  hands on the token that the flow stored.
\<close>

theorem authorization_header:
  "(headers (history_request h tok tmo) = None) = (tok = None \<or> tok = Some [])
   \<and> (tok = Some t \<and> t \<noteq> [] \<longrightarrow>
        headers (history_request h tok tmo) = Some [(''Authorization'', ''Bearer '' @ t)])
   \<and> (strip x = [] \<longrightarrow>
        headers (history_request h (validate_token (Some (JStr x))) tmo) = None)
   \<and> (strip x \<noteq> [] \<longrightarrow>
        headers (history_request h (validate_token (Some (JStr x))) tmo) =
          Some [(''Authorization'', ''Bearer '' @ strip x)])
   \<and> (strip x = []) = (\<forall>c \<in> set x. is_uspace c)
   \<and> token (coordinator_init h (validate_token ti)) = validate_token ti"
proof -
  have a: "(headers (history_request h tok tmo) = None) = (tok = None \<or> tok = Some [])"
    by (simp add: history_request_def split: option.splits)
  have b: "tok = Some t \<and> t \<noteq> [] \<longrightarrow>
      headers (history_request h tok tmo) = Some [(''Authorization'', ''Bearer '' @ t)]"
    by (simp add: history_request_def)
  have c: "strip x = [] \<longrightarrow>
      headers (history_request h (validate_token (Some (JStr x))) tmo) = None"
    by (simp add: history_request_def validate_token_def)
  have d: "strip x \<noteq> [] \<longrightarrow>
      headers (history_request h (validate_token (Some (JStr x))) tmo) =
        Some [(''Authorization'', ''Bearer '' @ strip x)]"
    by (simp add: history_request_def validate_token_def)
  have e: "token (coordinator_init h (validate_token ti)) = validate_token ti"
    by (auto simp: coordinator_init_def validate_token_def Let_def
        split: option.splits json.splits)
  from a b c d e strip_empty [of x] show ?thesis by blast
qed

theorem authorization_header_witness:
  "strip ''  '' = []
   \<and> headers (history_request ''192.168.1.5'' (validate_token (Some (JStr ''  ''))) None) = None
   \<and> strip '' s3cret '' = ''s3cret''
   \<and> headers (history_request ''192.168.1.5'' (validate_token (Some (JStr '' s3cret ''))) None) =
       Some [(''Authorization'', ''Bearer s3cret'')]
   \<and> headers (history_request ''192.168.1.5'' (Some ''s3cret'') None) =
       Some [(''Authorization'', ''Bearer s3cret'')]"
proof -
  have s1: "strip ''  '' = []"
    by (simp add: strip_def is_uspace_def)
  have s2: "strip '' s3cret '' = ''s3cret''"
    by (simp add: strip_def is_uspace_def)
  from authorization_header [of "''192.168.1.5''" "Some ''s3cret''" None "''s3cret''" "''  ''"] s1
  have a: "headers (history_request ''192.168.1.5'' (validate_token (Some (JStr ''  ''))) None) = None"
    and b: "headers (history_request ''192.168.1.5'' (Some ''s3cret'') None) =
       Some [(''Authorization'', ''Bearer s3cret'')]"
    by simp_all
  from authorization_header [of "''192.168.1.5''" None None "[]" "'' s3cret ''"] s2
  have c: "headers (history_request ''192.168.1.5'' (validate_token (Some (JStr '' s3cret ''))) None) =
       Some [(''Authorization'', ''Bearer s3cret'')]"
    by simp
  from s1 s2 a b c show ?thesis by simp
qed

section \<open>The payload of a record\<close>

text \<open>
  Claim C3 as stated: no record has an empty payload.  The decoder has no such test:
  \<^verbatim>\<open>bytes.fromhex\<close> of the empty string is the empty byte string, and the record is built.
\<close>

theorem empty_hex_gives_empty_payload:
  "from_gateway_history_json_tag ''11:22:33:44:55:66''
     (tag_entry (JInt (- 70)) (JInt 95) (JStr [])) (Some 100) =
     Inr \<lparr>mac = ''11:22:33:44:55:66'', rssi = - 70, timestamp = 95, data = [],
          age_seconds = Some 5\<rparr>"
  by code_simp

text \<open>
  Claim C3, amended: the payload of every record that the decoder builds is the byte
  string that strict hex decoding of the entry's \<^verbatim>\<open>data\<close> string gives; it is empty
  exactly when that string has no digits (it is empty or white space only), and such a
  record is built.  An entry whose \<^verbatim>\<open>data\<close> string is not hex is rejected, not built.
\<close>

theorem payload_is_hex_decoding:
  "(from_gateway_history_json_tag m p rts = Inr t \<longrightarrow>
      (\<exists>x. py_getitem p ''data'' = Inr (JStr x) \<and> hex_bytes x = Some (data t)
         \<and> (data t = [] \<longleftrightarrow> (\<forall>c \<in> set x. is_space c))))
   \<and> (py_getitem p ''data'' = Inr (JStr y) \<and> hex_bytes y = None \<longrightarrow>
        (\<exists>e. from_gateway_history_json_tag m p rts = Inl e))"
proof (intro conjI impI)
  assume a: "from_gateway_history_json_tag m p rts = Inr t"
  from tag_fields [OF a] obtain dv where
    dv: "py_getitem p ''data'' = Inr dv" "fromhex dv = Inr (data t)" by blast
  from fromhex_Inr [OF dv(2)] obtain x where x: "dv = JStr x" "hex_bytes x = Some (data t)"
    by blast
  from x(2) have "(data t = []) = (\<forall>c \<in> set x. is_space c)"
    using hex_bytes_empty [of x] by auto
  with dv(1) x show "\<exists>x. py_getitem p ''data'' = Inr (JStr x) \<and> hex_bytes x = Some (data t)
         \<and> (data t = [] \<longleftrightarrow> (\<forall>c \<in> set x. is_space c))" by blast
next
  assume b: "py_getitem p ''data'' = Inr (JStr y) \<and> hex_bytes y = None"
  show "\<exists>e. from_gateway_history_json_tag m p rts = Inl e"
  proof (cases "from_gateway_history_json_tag m p rts")
    case (Inl e)
    then show ?thesis by blast
  next
    case (Inr t)
    from tag_fields [OF Inr] b show ?thesis by auto
  qed
qed

theorem payload_is_hex_decoding_witness:
  "from_gateway_history_json_tag ''11:22:33:44:55:66''
     (tag_entry (JInt (- 70)) (JInt 95) (JStr ''0201060303aafe'')) (Some 100) = Inr example_tag
   \<and> hex_bytes ''0201060303aafe'' = Some (data example_tag)
   \<and> py_getitem (tag_entry (JInt (- 70)) (JInt 95) (JStr ''0g'')) ''data'' = Inr (JStr ''0g'')
   \<and> hex_bytes ''0g'' = None
   \<and> from_gateway_history_json_tag ''11:22:33:44:55:66''
       (tag_entry (JInt (- 70)) (JInt 95) (JStr ''0g'')) (Some 100) = Inl ValueError"
proof -
  let ?m = "''11:22:33:44:55:66''"
  let ?good = "tag_entry (JInt (- 70)) (JInt 95) (JStr ''0201060303aafe'')"
  let ?bad = "tag_entry (JInt (- 70)) (JInt 95) (JStr ''0g'')"
  have g: "from_gateway_history_json_tag ?m ?good (Some 100) = Inr example_tag"
    by code_simp
  have gd: "py_getitem ?good ''data'' = Inr (JStr ''0201060303aafe'')"
    by (simp add: tag_entry_def py_dict_def)
  from payload_is_hex_decoding [of ?m ?good "Some 100" example_tag "[]"] g gd
  have gh: "hex_bytes ''0201060303aafe'' = Some (data example_tag)"
    by auto
  have b1: "py_getitem ?bad ''data'' = Inr (JStr ''0g'')"
    by (simp add: tag_entry_def py_dict_def)
  have b2: "hex_bytes ''0g'' = None"
    by (simp add: is_space_def hex_val_def)
  from payload_is_hex_decoding [of ?m ?bad "Some 100" example_tag "''0g''"] b1 b2
  have "\<exists>e. from_gateway_history_json_tag ?m ?bad (Some 100) = Inl e"
    by blast
  moreover have "from_gateway_history_json_tag ?m ?bad (Some 100) = Inl ValueError"
    by code_simp
  ultimately show ?thesis using g gh b1 b2 by simp
qed

section \<open>Change detection\<close>

text \<open>
  Claim C4: for every cache and every decoded response, the records that the loop
  reports are those of the response whose identifier has no entry in the cache as it was
  before the loop, or whose payload differs from the payload cached there; they are
  reported in the order of the response.  In particular a record whose payload equals
  the cached one is not reported, whatever its signal strength, time stamp or age, and a
  record whose identifier the cache has never seen is reported.
\<close>

theorem changed_iff_new_or_payload_differs:
  assumes "from_gateway_history_json body = Inr r"
  shows "fst (update_loop (tags r) [] cache) =
           filter (\<lambda>t. cache (mac t) = None \<or>
                        (\<exists>old. cache (mac t) = Some old \<and> data old \<noteq> data t)) (tags r)
         \<and> (\<forall>t \<in> set (tags r). \<forall>old. cache (mac t) = Some old \<and> data old = data t
               \<longrightarrow> t \<notin> set (fst (update_loop (tags r) [] cache)))
         \<and> (\<forall>t \<in> set (tags r). cache (mac t) = None
               \<longrightarrow> t \<in> set (fst (update_loop (tags r) [] cache)))"
proof -
  have same: "(\<lambda>t. case cache (mac t) of None \<Rightarrow> True | Some old \<Rightarrow> data old \<noteq> data t) =
      (\<lambda>t. cache (mac t) = None \<or> (\<exists>old. cache (mac t) = Some old \<and> data old \<noteq> data t))"
    by (rule ext) (simp split: option.splits)
  have eq: "fst (update_loop (tags r) [] cache) =
      filter (\<lambda>t. cache (mac t) = None \<or>
                   (\<exists>old. cache (mac t) = Some old \<and> data old \<noteq> data t)) (tags r)"
    using update_loop_changed [OF decoded_tags_distinct [OF assms], of cache]
    unfolding same .
  show ?thesis unfolding eq by simp
qed

text \<open>
  The decoded example against a cache that holds the same payload with another signal
  strength and time stamp, and against an empty cache.
\<close>

theorem changed_iff_new_or_payload_differs_witness:
  "from_gateway_history_json example_body = Inr example_response
   \<and> [mac later_tag \<mapsto> later_tag] (mac example_tag) = Some later_tag
   \<and> data later_tag = data example_tag
   \<and> fst (update_loop (tags example_response) [] [mac later_tag \<mapsto> later_tag]) = []
   \<and> fst (update_loop (tags example_response) [] Map.empty) = [example_tag]"
proof -
  have c: "[mac later_tag \<mapsto> later_tag] (mac example_tag) = Some later_tag"
    "data later_tag = data example_tag"
    by (simp_all add: later_tag_def example_tag_def)
  have t: "tags example_response = [example_tag]"
    by (simp add: example_response_def)
  from changed_iff_new_or_payload_differs
    [OF decoded_example_response, of "[mac later_tag \<mapsto> later_tag]"] c t
  have a: "fst (update_loop (tags example_response) [] [mac later_tag \<mapsto> later_tag]) = []"
    by simp
  from changed_iff_new_or_payload_differs [OF decoded_example_response, of Map.empty] t
  have b: "fst (update_loop (tags example_response) [] Map.empty) = [example_tag]"
    by simp
  from decoded_example_response c a b show ?thesis by simp
qed

text \<open>
  Claim C5: for every cache and every decoded response, the loop run a second time on
  the same response, from the cache that the first run left, reports nothing and leaves
  that cache as it is.  For the poll cycle: when a cycle has succeeded, the next cycle
  with the same answer of the gateway returns the empty list.
\<close>

theorem second_run_reports_nothing:
  "(from_gateway_history_json body = Inr r \<longrightarrow>
      update_loop (tags r) [] (snd (update_loop (tags r) [] cache)) =
        ([], snd (update_loop (tags r) [] cache)))
   \<and> (async_update_data s c = (Inr ch, c') \<longrightarrow> async_update_data s c' = (Inr [], c'))"
proof (intro conjI impI)
  assume "from_gateway_history_json body = Inr r"
  from update_loop_twice [OF decoded_tags_distinct [OF this]]
  show "update_loop (tags r) [] (snd (update_loop (tags r) [] cache)) =
        ([], snd (update_loop (tags r) [] cache))" .
next
  assume a: "async_update_data s c = (Inr ch, c')"
  then obtain resp where
    f: "async_get_gateway_history_data s (host c) (token c) None = Inr resp"
    and c': "c' = c\<lparr>last_tag_datas := snd (update_loop (tags resp) [] (last_tag_datas c))\<rparr>"
    by (auto simp: async_update_data_def split: sum.splits prod.splits)
  from fetched_is_decoded [OF f] obtain b where "from_gateway_history_json b = Inr resp"
    by blast
  from update_loop_twice [OF decoded_tags_distinct [OF this], of "last_tag_datas c"] c'
  have l: "update_loop (tags resp) [] (last_tag_datas c') = ([], last_tag_datas c')"
    by simp
  from c' f have f': "async_get_gateway_history_data s (host c') (token c') None = Inr resp"
    by simp
  show "async_update_data s c' = (Inr [], c')"
    by (simp add: async_update_data_def f' l)
qed

theorem second_run_reports_nothing_witness:
  "from_gateway_history_json example_body = Inr example_response
   \<and> fst (update_loop (tags example_response) [] Map.empty) = [example_tag]
   \<and> fst (update_loop (tags example_response) []
            (snd (update_loop (tags example_response) [] Map.empty))) = []
   \<and> fst (async_update_data (answers example_body) fresh_coordinator) = Inr [example_tag]
   \<and> fst (async_update_data (answers example_body)
            (snd (async_update_data (answers example_body) fresh_coordinator))) = Inr []"
proof -
  have one: "fst (update_loop (tags example_response) [] Map.empty) = [example_tag]"
    by (simp add: example_response_def)
  have f: "async_get_gateway_history_data (answers example_body) ''192.168.1.5'' None None =
      Inr example_response"
    by (simp add: async_get_gateway_history_data_def try_body_def answers_def
        decoded_example_response)
  have cyc: "fst (async_update_data (answers example_body) fresh_coordinator) = Inr [example_tag]"
    by (simp add: async_update_data_def fresh_coordinator_def coordinator_init_def f
        example_response_def split: prod.splits)
  from second_run_reports_nothing [of example_body example_response Map.empty
      "answers example_body" fresh_coordinator "[example_tag]"
      "snd (async_update_data (answers example_body) fresh_coordinator)"]
    decoded_example_response cyc
  have two: "update_loop (tags example_response) []
        (snd (update_loop (tags example_response) [] Map.empty)) =
        ([], snd (update_loop (tags example_response) [] Map.empty))"
    and again: "async_update_data (answers example_body)
        (snd (async_update_data (answers example_body) fresh_coordinator)) =
        (Inr [], snd (async_update_data (answers example_body) fresh_coordinator))"
    by (simp_all add: prod_eq_iff)
  from decoded_example_response one two cyc again show ?thesis by simp
qed

section \<open>The age of a record\<close>

text \<open>
  Claim C6: the age of a decoded record is the response time stamp minus the record's
  time stamp when the response time stamp is given and is not zero, and \<^verbatim>\<open>None\<close>
  otherwise: for the class method with its optional argument, and for every record of a
  decoded response.  The example body, with response time 100 and tag time 95, decodes
  to exactly one record, whose age is 5.
\<close>

theorem age_seconds_value:
  "(from_gateway_history_json_tag m p rts = Inr t \<longrightarrow>
      age_seconds t =
        (case rts of None \<Rightarrow> None
         | Some rt \<Rightarrow> if rt \<noteq> 0 then Some (rt - timestamp t) else None))
   \<and> (from_gateway_history_json body = Inr r \<and> u \<in> set (tags r) \<longrightarrow>
        age_seconds u =
          (if response_timestamp r \<noteq> 0 then Some (response_timestamp r - timestamp u)
           else None))
   \<and> (\<exists>r. from_gateway_history_json example_body = Inr r \<and> tags r = [example_tag]
          \<and> age_seconds example_tag = Some 5)"
proof (intro conjI impI)
  assume "from_gateway_history_json_tag m p rts = Inr t"
  then show "age_seconds t =
        (case rts of None \<Rightarrow> None
         | Some rt \<Rightarrow> if rt \<noteq> 0 then Some (rt - timestamp t) else None)"
    by (rule tag_age)
next
  assume a: "from_gateway_history_json body = Inr r \<and> u \<in> set (tags r)"
  then obtain its where ts: "tags_of_items its (Some (response_timestamp r)) = Inr (tags r)"
    by (auto simp: from_gateway_history_json_def split: sum.splits)
  from tags_of_items_age [OF ts] a show "age_seconds u =
          (if response_timestamp r \<noteq> 0 then Some (response_timestamp r - timestamp u)
           else None)" by simp
next
  show "\<exists>r. from_gateway_history_json example_body = Inr r \<and> tags r = [example_tag]
          \<and> age_seconds example_tag = Some 5"
    by (simp add: decoded_example_response) (simp add: example_response_def example_tag_def)
qed

text \<open>The tag of the example at response times 100 and 0, and the whole example.\<close>

theorem age_seconds_value_witness:
  "from_gateway_history_json_tag ''11:22:33:44:55:66''
     (tag_entry (JInt (- 70)) (JInt 95) (JStr ''0201060303aafe'')) (Some 100) = Inr example_tag
   \<and> age_seconds example_tag = Some (100 - timestamp example_tag)
   \<and> from_gateway_history_json_tag ''11:22:33:44:55:66''
       (tag_entry (JInt (- 70)) (JInt 95) (JStr ''0201060303aafe'')) (Some 0) =
       Inr (example_tag\<lparr>age_seconds := None\<rparr>)
   \<and> from_gateway_history_json example_body = Inr example_response
   \<and> tags example_response = [example_tag]
   \<and> response_timestamp example_response = 100
   \<and> age_seconds example_tag = Some 5"
proof -
  let ?m = "''11:22:33:44:55:66''"
  let ?p = "tag_entry (JInt (- 70)) (JInt 95) (JStr ''0201060303aafe'')"
  have g: "from_gateway_history_json_tag ?m ?p (Some 100) = Inr example_tag"
    by code_simp
  have z: "from_gateway_history_json_tag ?m ?p (Some 0) = Inr (example_tag\<lparr>age_seconds := None\<rparr>)"
    by code_simp
  have t: "tags example_response = [example_tag]" "response_timestamp example_response = 100"
    by (simp_all add: example_response_def)
  from age_seconds_value [of ?m ?p "Some 100" example_tag example_body example_response
      example_tag] g decoded_example_response t
  have a: "age_seconds example_tag = Some (100 - timestamp example_tag)"
    by simp
  have b: "timestamp example_tag = 95"
    by (simp add: example_tag_def)
  from g z decoded_example_response t a b show ?thesis by simp
qed

section \<open>Classification of transport failures\<close>

text \<open>
  Claim C7: a 401 answer makes the fetch raise \<^verbatim>\<open>InvalidAuth\<close> whatever the body is; any
  other status than 200 makes it raise \<^verbatim>\<open>CannotConnect\<close> with the decimal status code at
  the end of its message; a timeout, a client error of the transport, and a body of a
  200 answer that does not parse as JSON make it raise \<^verbatim>\<open>CannotConnect\<close>.
\<close>

theorem fetch_error_classification:
  "(s (history_request h tok tmo) = GetResponds 401 b \<longrightarrow>
      async_get_gateway_history_data s h tok tmo = Inl InvalidAuth)
   \<and> (s (history_request h tok tmo) = GetResponds st b \<and> st \<noteq> 200 \<and> st \<noteq> 401 \<longrightarrow>
        async_get_gateway_history_data s h tok tmo =
          Inl (CannotConnect (''Unexpected response from gateway: HTTP '' @ show_nat st)))
   \<and> (s (history_request h tok tmo) = GetRaises TimeoutError \<longrightarrow>
        async_get_gateway_history_data s h tok tmo =
          Inl (CannotConnect ''Timeout communicating with gateway''))
   \<and> (s (history_request h tok tmo) = GetRaises ClientError \<longrightarrow>
        async_get_gateway_history_data s h tok tmo =
          Inl (CannotConnect ''Error communicating with gateway''))
   \<and> (s (history_request h tok tmo) = GetResponds 200 (JsonRaises ValueError) \<longrightarrow>
        async_get_gateway_history_data s h tok tmo =
          Inl (CannotConnect ''Invalid response from gateway''))"
  by (simp add: async_get_gateway_history_data_def try_body_def)

text \<open>A 401 with the example as its body, a 503, and the three raising transports.\<close>

theorem fetch_error_classification_witness:
  "async_get_gateway_history_data (\<lambda>req. GetResponds 401 (JsonReturns example_body))
     ''192.168.1.5'' None None = Inl InvalidAuth
   \<and> async_get_gateway_history_data (\<lambda>req. GetResponds 503 (JsonReturns example_body))
       ''192.168.1.5'' None None =
       Inl (CannotConnect ''Unexpected response from gateway: HTTP 503'')
   \<and> async_get_gateway_history_data (\<lambda>req. GetRaises TimeoutError)
       ''192.168.1.5'' None None = Inl (CannotConnect ''Timeout communicating with gateway'')
   \<and> async_get_gateway_history_data (\<lambda>req. GetRaises ClientError)
       ''192.168.1.5'' None None = Inl (CannotConnect ''Error communicating with gateway'')
   \<and> async_get_gateway_history_data (\<lambda>req. GetResponds 200 (JsonRaises ValueError))
       ''192.168.1.5'' None None = Inl (CannotConnect ''Invalid response from gateway'')"
proof -
  have n: "show_nat 503 = ''503''"
    by code_simp
  from fetch_error_classification
    [of "\<lambda>req. GetResponds 401 (JsonReturns example_body)" "''192.168.1.5''" None None
      "JsonReturns example_body" 401]
  have a: "async_get_gateway_history_data (\<lambda>req. GetResponds 401 (JsonReturns example_body))
      ''192.168.1.5'' None None = Inl InvalidAuth"
    by simp
  from fetch_error_classification
    [of "\<lambda>req. GetResponds 503 (JsonReturns example_body)" "''192.168.1.5''" None None
      "JsonReturns example_body" 503]
  have b: "async_get_gateway_history_data (\<lambda>req. GetResponds 503 (JsonReturns example_body))
      ''192.168.1.5'' None None =
      Inl (CannotConnect (''Unexpected response from gateway: HTTP '' @ show_nat 503))"
    by simp
  from fetch_error_classification
    [of "\<lambda>req. GetRaises TimeoutError" "''192.168.1.5''" None None "JsonReturns JNull" 0]
  have c: "async_get_gateway_history_data (\<lambda>req. GetRaises TimeoutError)
      ''192.168.1.5'' None None = Inl (CannotConnect ''Timeout communicating with gateway'')"
    by simp
  from fetch_error_classification
    [of "\<lambda>req. GetRaises ClientError" "''192.168.1.5''" None None "JsonReturns JNull" 0]
  have d: "async_get_gateway_history_data (\<lambda>req. GetRaises ClientError)
      ''192.168.1.5'' None None = Inl (CannotConnect ''Error communicating with gateway'')"
    by simp
  from fetch_error_classification
    [of "\<lambda>req. GetResponds 200 (JsonRaises ValueError)" "''192.168.1.5''" None None
      "JsonRaises ValueError" 200]
  have e: "async_get_gateway_history_data (\<lambda>req. GetResponds 200 (JsonRaises ValueError))
      ''192.168.1.5'' None None = Inl (CannotConnect ''Invalid response from gateway'')"
    by simp
  from a b c d e n show ?thesis by simp
qed

section \<open>The cache across a poll cycle\<close>

text \<open>
  Claim C8: a poll cycle fails exactly when its fetch fails, with the exception of the
  fetch (\<^verbatim>\<open>InvalidAuth\<close>, \<^verbatim>\<open>CannotConnect\<close>, or what the decoder raised), and a failed cycle
  leaves the coordinator, and so its cache \<^verbatim>\<open>last_tag_datas\<close>, exactly as it was.
\<close>

theorem failed_cycle_keeps_cache:
  "(fst (async_update_data s c) = Inl e) =
     (async_get_gateway_history_data s (host c) (token c) None = Inl e)
   \<and> (fst (async_update_data s c) = Inl e \<longrightarrow> snd (async_update_data s c) = c)"
  by (auto simp: async_update_data_def split: sum.splits prod.splits)

text \<open>A coordinator that has seen two tags, at a 401, a timeout and a body with bad hex.\<close>

theorem failed_cycle_keeps_cache_witness:
  "async_update_data (\<lambda>req. GetResponds 401 (JsonReturns example_body)) seen_coordinator =
     (Inl InvalidAuth, seen_coordinator)
   \<and> async_update_data (\<lambda>req. GetRaises TimeoutError) seen_coordinator =
       (Inl (CannotConnect ''Timeout communicating with gateway''), seen_coordinator)
   \<and> async_update_data
       (answers (body_with (tag_entry (JInt (- 70)) (JInt 95) (JStr ''zz'')))) seen_coordinator =
       (Inl ValueError, seen_coordinator)"
proof -
  have hc: "host seen_coordinator = ''192.168.1.5''" "token seen_coordinator = None"
    by (simp_all add: seen_coordinator_def fresh_coordinator_def coordinator_init_def)
  have f1: "async_get_gateway_history_data (\<lambda>req. GetResponds 401 (JsonReturns example_body))
      ''192.168.1.5'' None None = Inl InvalidAuth"
    by (simp add: async_get_gateway_history_data_def try_body_def)
  have f2: "async_get_gateway_history_data (\<lambda>req. GetRaises TimeoutError)
      ''192.168.1.5'' None None = Inl (CannotConnect ''Timeout communicating with gateway'')"
    by (simp add: async_get_gateway_history_data_def try_body_def)
  have f3: "async_get_gateway_history_data
      (answers (body_with (tag_entry (JInt (- 70)) (JInt 95) (JStr ''zz''))))
      ''192.168.1.5'' None None = Inl ValueError"
    by code_simp
  from failed_cycle_keeps_cache
    [of "\<lambda>req. GetResponds 401 (JsonReturns example_body)" seen_coordinator InvalidAuth] hc f1
  have a: "async_update_data (\<lambda>req. GetResponds 401 (JsonReturns example_body)) seen_coordinator =
      (Inl InvalidAuth, seen_coordinator)"
    by (simp add: prod_eq_iff)
  from failed_cycle_keeps_cache
    [of "\<lambda>req. GetRaises TimeoutError" seen_coordinator
      "CannotConnect ''Timeout communicating with gateway''"] hc f2
  have b: "async_update_data (\<lambda>req. GetRaises TimeoutError) seen_coordinator =
      (Inl (CannotConnect ''Timeout communicating with gateway''), seen_coordinator)"
    by (simp add: prod_eq_iff)
  from failed_cycle_keeps_cache
    [of "answers (body_with (tag_entry (JInt (- 70)) (JInt 95) (JStr ''zz'')))"
      seen_coordinator ValueError] hc f3
  have c: "async_update_data
      (answers (body_with (tag_entry (JInt (- 70)) (JInt 95) (JStr ''zz'')))) seen_coordinator =
      (Inl ValueError, seen_coordinator)"
    by (simp add: prod_eq_iff)
  from a b c show ?thesis by simp
qed

text \<open>
  Claim C9: after the loop over a decoded response, the cache holds, for every identifier
  of the response, an entry with that response's payload; an identifier that is not in
  the response keeps the entry it had; and no entry is ever removed.
\<close>

theorem cache_update_frame:
  assumes "from_gateway_history_json body = Inr r"
  shows "(\<forall>t \<in> set (tags r).
            \<exists>e. snd (update_loop (tags r) [] cache) (mac t) = Some e \<and> data e = data t)
       \<and> (\<forall>k. k \<notin> mac ` set (tags r) \<longrightarrow> snd (update_loop (tags r) [] cache) k = cache k)
       \<and> dom cache \<subseteq> dom (snd (update_loop (tags r) [] cache))"
proof (intro conjI)
  note d = decoded_tags_distinct [OF assms]
  show "\<forall>t \<in> set (tags r).
      \<exists>e. snd (update_loop (tags r) [] cache) (mac t) = Some e \<and> data e = data t"
    using update_loop_absorbed [OF d] by blast
  show "\<forall>k. k \<notin> mac ` set (tags r) \<longrightarrow> snd (update_loop (tags r) [] cache) k = cache k"
    by (simp add: update_loop_other)
  show "dom cache \<subseteq> dom (snd (update_loop (tags r) [] cache))"
    using update_loop_dom [of _ cache "tags r" "[]"] by blast
qed

text \<open>
  The example against the cache of the coordinator that has seen two tags: the entry of
  the other beacon stays, the entry of the example's beacon has the example's payload.
\<close>

theorem cache_update_frame_witness:
  "from_gateway_history_json example_body = Inr example_response
   \<and> map_option data
       (snd (update_loop (tags example_response) [] (last_tag_datas seen_coordinator))
          (mac example_tag)) = Some (data example_tag)
   \<and> snd (update_loop (tags example_response) [] (last_tag_datas seen_coordinator))
       (mac other_tag) = Some other_tag
   \<and> last_tag_datas seen_coordinator (mac other_tag) = Some other_tag"
proof -
  have t: "tags example_response = [example_tag]"
    by (simp add: example_response_def)
  have o: "last_tag_datas seen_coordinator (mac other_tag) = Some other_tag"
    by (simp add: seen_coordinator_def)
  have ne: "mac other_tag \<noteq> mac example_tag"
    by (simp add: other_tag_def example_tag_def)
  from cache_update_frame [OF decoded_example_response, of "last_tag_datas seen_coordinator"]
  have a: "\<exists>e. snd (update_loop (tags example_response) [] (last_tag_datas seen_coordinator))
        (mac example_tag) = Some e \<and> data e = data example_tag"
    and b: "mac other_tag \<notin> mac ` set (tags example_response) \<longrightarrow>
      snd (update_loop (tags example_response) [] (last_tag_datas seen_coordinator))
        (mac other_tag) = last_tag_datas seen_coordinator (mac other_tag)"
    by (simp_all add: t)
  from a have a': "map_option data
      (snd (update_loop (tags example_response) [] (last_tag_datas seen_coordinator))
         (mac example_tag)) = Some (data example_tag)"
    by auto
  from b ne o have b': "snd (update_loop (tags example_response) []
      (last_tag_datas seen_coordinator)) (mac other_tag) = Some other_tag"
    by (simp add: t)
  from decoded_example_response a' b' o show ?thesis by simp
qed

text \<open>
  Claim C10: in the loop over a decoded response, an identifier whose payload equals the
  cached payload keeps its cached record as it is, with the signal strength, time stamp
  and age stored when its payload last changed; every reported record becomes the cache
  entry of its identifier; and nothing else in the cache changes.
\<close>

theorem unchanged_record_keeps_cached_entry:
  assumes "from_gateway_history_json body = Inr r"
  shows "(\<forall>t \<in> set (tags r). \<forall>old. cache (mac t) = Some old \<and> data old = data t
            \<longrightarrow> snd (update_loop (tags r) [] cache) (mac t) = Some old)
       \<and> (\<forall>t \<in> set (fst (update_loop (tags r) [] cache)).
            snd (update_loop (tags r) [] cache) (mac t) = Some t)
       \<and> (\<forall>k. snd (update_loop (tags r) [] cache) k \<noteq> cache k
            \<longrightarrow> (\<exists>t \<in> set (fst (update_loop (tags r) [] cache)).
                   mac t = k \<and> snd (update_loop (tags r) [] cache) k = Some t))"
proof (intro conjI ballI allI impI)
  note d = decoded_tags_distinct [OF assms]
  {
    fix t old
    assume "t \<in> set (tags r)" and "cache (mac t) = Some old \<and> data old = data t"
    then show "snd (update_loop (tags r) [] cache) (mac t) = Some old"
      using update_loop_entry [OF d, of t "[]" cache] by simp
  next
    fix t
    assume "t \<in> set (fst (update_loop (tags r) [] cache))"
    then have t: "t \<in> set (tags r)"
      and c: "case cache (mac t) of None \<Rightarrow> True | Some old \<Rightarrow> data old \<noteq> data t"
      unfolding update_loop_changed [OF d] by simp_all
    show "snd (update_loop (tags r) [] cache) (mac t) = Some t"
      using update_loop_entry [OF d t, of "[]" cache] c by (simp split: option.splits)
  next
    fix k
    assume ne: "snd (update_loop (tags r) [] cache) k \<noteq> cache k"
    then have "k \<in> mac ` set (tags r)"
      using update_loop_other [of k "tags r" "[]" cache] by blast
    then obtain t where t: "t \<in> set (tags r)" and k: "k = mac t" by blast
    have e: "snd (update_loop (tags r) [] cache) (mac t) =
        (case cache (mac t) of None \<Rightarrow> Some t
         | Some old \<Rightarrow> if data old \<noteq> data t then Some t else Some old)"
      by (rule update_loop_entry [OF d t])
    from ne k e have c: "case cache (mac t) of None \<Rightarrow> True | Some old \<Rightarrow> data old \<noteq> data t"
      by (auto split: option.splits if_splits)
    with t have "t \<in> set (fst (update_loop (tags r) [] cache))"
      unfolding update_loop_changed [OF d] by simp
    moreover from e c have "snd (update_loop (tags r) [] cache) (mac t) = Some t"
      by (simp split: option.splits)
    ultimately show "\<exists>t \<in> set (fst (update_loop (tags r) [] cache)).
        mac t = k \<and> snd (update_loop (tags r) [] cache) k = Some t"
      using k by blast
  }
qed

text \<open>
  The example against a cache that holds its payload with signal strength - 81 and time
  stamp 99: that record stays.  Against an empty cache the example's record is stored.
\<close>

theorem unchanged_record_keeps_cached_entry_witness:
  "from_gateway_history_json example_body = Inr example_response
   \<and> [mac later_tag \<mapsto> later_tag] (mac example_tag) = Some later_tag
   \<and> data later_tag = data example_tag
   \<and> snd (update_loop (tags example_response) [] [mac later_tag \<mapsto> later_tag])
       (mac example_tag) = Some later_tag
   \<and> rssi later_tag = - 81
   \<and> fst (update_loop (tags example_response) [] Map.empty) = [example_tag]
   \<and> snd (update_loop (tags example_response) [] Map.empty) (mac example_tag) =
       Some example_tag"
proof -
  have t: "tags example_response = [example_tag]"
    by (simp add: example_response_def)
  have c: "[mac later_tag \<mapsto> later_tag] (mac example_tag) = Some later_tag"
    "data later_tag = data example_tag" "rssi later_tag = - 81"
    by (simp_all add: later_tag_def example_tag_def)
  have one: "fst (update_loop (tags example_response) [] Map.empty) = [example_tag]"
    by (simp add: t)
  from unchanged_record_keeps_cached_entry
    [OF decoded_example_response, of "[mac later_tag \<mapsto> later_tag]"] c(1,2)
  have a: "snd (update_loop (tags example_response) [] [mac later_tag \<mapsto> later_tag])
      (mac example_tag) = Some later_tag"
    by (simp add: t)
  from unchanged_record_keeps_cached_entry [OF decoded_example_response, of Map.empty] one
  have b: "snd (update_loop (tags example_response) [] Map.empty) (mac example_tag) =
      Some example_tag"
    by (simp add: t)
  from decoded_example_response c one a b show ?thesis by simp
qed

end
